theory Spec2Isabelle
  imports Complex_Main "HOL-Library.Char_ord" "HOL-Library.List_Lexorder"
begin

section \<open>Python strings\<close>

text \<open>
  A Python \<open>str\<close> is modelled as a \<^typ>\<open>string\<close> of ASCII characters. A character
  above 127 is kept as it is and counts as neither a space, a digit nor a letter.
\<close>

definition is_space :: "char \<Rightarrow> bool" where
  \<comment> \<open>\<open>str.isspace\<close> on ASCII: tab, LF, VT, FF, CR, FS, GS, RS, US and the blank.\<close>
  "is_space c = ((9 \<le> (of_char c :: nat) \<and> (of_char c :: nat) \<le> 13) \<or>
                 (28 \<le> (of_char c :: nat) \<and> (of_char c :: nat) \<le> 32))"

definition is_digit :: "char \<Rightarrow> bool" where
  "is_digit c = (48 \<le> (of_char c :: nat) \<and> (of_char c :: nat) \<le> 57)"

definition is_upper :: "char \<Rightarrow> bool" where
  "is_upper c = (65 \<le> (of_char c :: nat) \<and> (of_char c :: nat) \<le> 90)"

definition is_lower :: "char \<Rightarrow> bool" where
  "is_lower c = (97 \<le> (of_char c :: nat) \<and> (of_char c :: nat) \<le> 122)"

definition is_cased :: "char \<Rightarrow> bool" where
  "is_cased c = (is_upper c \<or> is_lower c)"

definition lower :: "char \<Rightarrow> char" where
  "lower c = (if is_upper c then char_of (of_char c + 32 :: nat) else c)"

definition upper :: "char \<Rightarrow> char" where
  "upper c = (if is_lower c then char_of (of_char c - 32 :: nat) else c)"

text \<open>\<open>s.split(d)\<close> for a separator of one character: \<open>seg\<close> is the segment read so far.\<close>

fun split_from :: "char \<Rightarrow> string \<Rightarrow> string \<Rightarrow> string list" where
  "split_from d seg [] = [seg]"
| "split_from d seg (c # cs) =
     (if c = d then seg # split_from d [] cs else split_from d (seg @ [c]) cs)"

definition str_split :: "char \<Rightarrow> string \<Rightarrow> string list" where
  "str_split d s = split_from d [] s"

text \<open>\<open>s.strip()\<close>: leading and trailing whitespace removed.\<close>

definition str_strip :: "string \<Rightarrow> string" where
  "str_strip s = rev (dropWhile is_space (rev (dropWhile is_space s)))"

text \<open>\<open>sep.join(xs)\<close>.\<close>

fun str_join :: "'a list \<Rightarrow> 'a list list \<Rightarrow> 'a list" where
  "str_join sep [] = []"
| "str_join sep [x] = x"
| "str_join sep (x # y # ys) = x @ sep @ str_join sep (y # ys)"

text \<open>
  A slice \<open>xs[i:j]\<close>: a negative index counts from the end, and both indices are
  clipped to the list, so a slice never raises.
\<close>

definition slice_index :: "nat \<Rightarrow> int \<Rightarrow> nat" where
  "slice_index n i = (if i < 0 then nat (max 0 (int n + i)) else min n (nat i))"

definition py_slice :: "'a list \<Rightarrow> int \<Rightarrow> int \<Rightarrow> 'a list" where
  "py_slice xs i j =
     (let a = slice_index (length xs) i; b = slice_index (length xs) j
      in take (b - a) (drop a xs))"

section \<open>The field cleaners of utils.py\<close>

text \<open>\<open>get_address\<close>: the city of an address.\<close>

definition get_address :: "string \<Rightarrow> string" where
  "get_address addr =
     (let result = py_slice (str_split CHR '','' addr) (- 2) (- 1);
          result = map str_strip result
      in str_join '', '' result)"

text \<open>
  \<open>clean_text\<close>: \<open>re.sub(r"\D+", "", text)\<close> deletes every maximal run of characters
  that are not digits.
\<close>

function re_sub_non_digits :: "string \<Rightarrow> string" where
  "re_sub_non_digits [] = []"
| "re_sub_non_digits (c # cs) =
     (if is_digit c then c # re_sub_non_digits cs
      else re_sub_non_digits (dropWhile (\<lambda>x. \<not> is_digit x) cs))"
  by pat_completeness auto
termination
  by (relation "measure length") (auto simp: length_dropWhile_le le_imp_less_Suc)

definition clean_text :: "string \<Rightarrow> string" where
  "clean_text text = re_sub_non_digits text"

text \<open>
  \<open>extract_details\<close>: \<open>re.findall\<close> with the pattern of line 65 and \<open>re.I\<close>. The
  pattern is an alternation of literals. At a position the alternatives are tried from left
  to right and the first that matches wins; a literal matches when the text agrees with it
  character by character up to case. After a match the scan goes on behind it, otherwise
  one character further. This is the function on ASCII text, as the pipeline below uses it;
  on text outside ASCII Python folds case with the tables of Unicode, which the section on
  Unicode text models (\<open>extract_details_u\<close>, equal to this one on ASCII text).
\<close>

definition pattern :: "string list" where
  "pattern = [''house'', ''terraced'', ''semi-detached'', ''detached'', ''block of flats'',
              ''duplex'', ''bungalow'', ''mansion'']"

fun match_literal :: "string \<Rightarrow> string \<Rightarrow> string option" where
  "match_literal [] text = Some []"
| "match_literal (p # ps) [] = None"
| "match_literal (p # ps) (c # cs) =
     (if lower c = lower p then map_option ((#) c) (match_literal ps cs) else None)"

fun match_alternatives :: "string list \<Rightarrow> string \<Rightarrow> string option" where
  "match_alternatives [] text = None"
| "match_alternatives (p # ps) text =
     (case match_literal p text of Some m \<Rightarrow> Some m | None \<Rightarrow> match_alternatives ps text)"

lemma match_literal_length: "match_literal p t = Some m \<Longrightarrow> length m = length p"
  by (induction p t arbitrary: m rule: match_literal.induct) (auto split: if_splits)

lemma match_literal_shorter: "match_literal p t = Some m \<Longrightarrow> length m \<le> length t"
  by (induction p t arbitrary: m rule: match_literal.induct) (auto split: if_splits)

lemma match_alternatives_literal:
  "match_alternatives ps t = Some m \<Longrightarrow> \<exists>p\<in>set ps. match_literal p t = Some m"
  by (induction ps) (auto split: option.splits)

lemma match_pattern_length:
  "match_alternatives pattern t = Some m \<Longrightarrow> 0 < length m \<and> length m \<le> length t"
proof -
  assume "match_alternatives pattern t = Some m"
  then obtain p where p: "p \<in> set pattern" "match_literal p t = Some m"
    using match_alternatives_literal by blast
  have "p \<noteq> []"
    using p(1) by (auto simp: pattern_def)
  then show ?thesis
    using match_literal_length [OF p(2)] match_literal_shorter [OF p(2)] by simp
qed

function findall :: "string \<Rightarrow> string list" where
  "findall [] = []"
| "findall (c # cs) =
     (case match_alternatives pattern (c # cs) of
        None \<Rightarrow> findall cs
      | Some m \<Rightarrow> m # findall (drop (length m) (c # cs)))"
  by pat_completeness auto
termination
  by (relation "measure length") (auto dest: match_pattern_length)

text \<open>\<open>s.title()\<close>: a letter is put in upper case after a character that is not a letter,
  in lower case after a letter.\<close>

fun title_from :: "bool \<Rightarrow> string \<Rightarrow> string" where
  "title_from previous_is_cased [] = []"
| "title_from previous_is_cased (c # cs) =
     (if previous_is_cased then lower c else upper c) # title_from (is_cased c) cs"

definition str_title :: "string \<Rightarrow> string" where
  "str_title s = title_from False s"

definition extract_details :: "string \<Rightarrow> string" where
  "extract_details text =
     (let result = findall text;
          result = str_join '' '' result
      in str_title result)"

text \<open>The title-cased keywords: what \<open>extract_details\<close> can put into its result.\<close>

definition keyword_titles :: "string list" where
  "keyword_titles = [''House'', ''Terraced'', ''Semi-Detached'', ''Detached'', ''Block Of Flats'',
             ''Duplex'', ''Bungalow'', ''Mansion'']"

section \<open>The table of listings\<close>

text \<open>
  A cell of the DataFrame that \<open>load_data\<close> reads: a string, a number (a column that holds
  numerals only is read as numbers) or the missing value NaN. The columns are those of the
  scraped files: title, address, bed, bath, toilet, pkn_space, price.
\<close>

datatype cell = NaN | Str string | Num rat

text \<open>
  The exceptions the pipeline and the predictor can raise. \<open>UnseenLabels\<close> is the
  \<open>ValueError\<close> of \<open>LabelEncoder.transform\<close> ("y contains previously unseen labels").
\<close>

datatype py_error = AttributeError | TypeError | ValueError | UnseenLabels "string list"

record ('s, 'n) listing =
  title :: 's
  address :: 's
  bed :: 'n
  bath :: 'n
  toilet :: 'n
  pkn_space :: 'n
  price :: 'n

text \<open>
  The table as loaded, after the cleaners (every field a string) and after
  \<open>pd.to_numeric\<close> (numbers are exact rationals, \<open>None\<close> is NaN). The renaming of
  \<open>title\<close> to \<open>type\<close> and of \<open>address\<close> to \<open>location\<close> (lines 122 and 123) changes
  labels only: the fields keep their first names here.
\<close>

type_synonym raw_row = "(cell, cell) listing"
type_synonym text_row = "(string, string) listing"
type_synonym row = "(string, rat option) listing"

text \<open>An exception ends the run: the steps after it are not taken.\<close>

fun and_then :: "'e + 'a \<Rightarrow> ('a \<Rightarrow> 'e + 'b) \<Rightarrow> 'e + 'b" where
  "and_then (Inl e) f = Inl e"
| "and_then (Inr x) f = f x"

text \<open>\<open>Series.apply(f)\<close>: \<open>f\<close> on every cell in turn; the first exception is raised.\<close>

fun series_apply :: "('a \<Rightarrow> py_error + 'b) \<Rightarrow> 'a list \<Rightarrow> py_error + 'b list" where
  "series_apply f [] = Inr []"
| "series_apply f (x # xs) =
     (case f x of
        Inl e \<Rightarrow> Inl e
      | Inr y \<Rightarrow> (case series_apply f xs of Inl e \<Rightarrow> Inl e | Inr ys \<Rightarrow> Inr (y # ys)))"

text \<open>
  A cleaner called on a cell. The cleaners use \<open>str.split\<close> and the \<open>re\<close> functions, so on
  a cell that is not a string they raise: \<open>get_address\<close> an \<open>AttributeError\<close>, the other
  two a \<open>TypeError\<close>.
\<close>

definition call_on :: "py_error \<Rightarrow> (string \<Rightarrow> 'a) \<Rightarrow> cell \<Rightarrow> py_error + 'a" where
  "call_on e f c = (case c of Str s \<Rightarrow> Inr (f s) | _ \<Rightarrow> Inl e)"

text \<open>The rows of a table given by its columns (all of one length).\<close>

definition from_columns ::
  "'s list \<Rightarrow> 's list \<Rightarrow> 'n list \<Rightarrow> 'n list \<Rightarrow> 'n list \<Rightarrow> 'n list \<Rightarrow> 'n list \<Rightarrow>
   ('s, 'n) listing list" where
  "from_columns c_title c_address c_bed c_bath c_toilet c_pkn_space c_price =
     map (\<lambda>i. \<lparr>title = c_title ! i, address = c_address ! i, bed = c_bed ! i,
                bath = c_bath ! i, toilet = c_toilet ! i, pkn_space = c_pkn_space ! i,
                price = c_price ! i\<rparr>)
         [0..<length c_title]"

subsection \<open>Lines 92 to 106: dropping, cleaning, converting\<close>

definition is_na :: "cell \<Rightarrow> bool" where
  "is_na c = (c = NaN)"

definition dropna :: "raw_row list \<Rightarrow> raw_row list" where
  "dropna df =
     filter (\<lambda>r. \<not> (is_na (title r) \<or> is_na (address r) \<or> is_na (bed r) \<or> is_na (bath r) \<or>
                     is_na (toilet r) \<or> is_na (pkn_space r) \<or> is_na (price r))) df"

text \<open>
  The loop of lines 96 to 102 goes through the columns in the order of the table. The
  third branch (\<open>col != "title" or col != "address"\<close>) holds for every other column.
\<close>

definition clean_columns :: "raw_row list \<Rightarrow> py_error + text_row list" where
  "clean_columns df =
     and_then (series_apply (call_on TypeError extract_details) (map title df)) (\<lambda>c_title.
     and_then (series_apply (call_on AttributeError get_address) (map address df)) (\<lambda>c_address.
     and_then (series_apply (call_on TypeError clean_text) (map bed df)) (\<lambda>c_bed.
     and_then (series_apply (call_on TypeError clean_text) (map bath df)) (\<lambda>c_bath.
     and_then (series_apply (call_on TypeError clean_text) (map toilet df)) (\<lambda>c_toilet.
     and_then (series_apply (call_on TypeError clean_text) (map pkn_space df)) (\<lambda>c_pkn_space.
     and_then (series_apply (call_on TypeError clean_text) (map price df)) (\<lambda>c_price.
     Inr (from_columns c_title c_address c_bed c_bath c_toilet c_pkn_space c_price))))))))"

text \<open>
  \<open>pd.to_numeric\<close> on a column of strings. An empty string is read as NaN and raises
  nothing; a string of digits is its decimal value; any other string is reported here as a
  \<open>ValueError\<close>. Only strings of digits reach \<open>to_numeric\<close>, since \<open>clean_text\<close> has removed
  every other character. The value is exact: the rounding of a numeral that does not fit
  64 bits is not modelled.
\<close>

definition decimal :: "string \<Rightarrow> int" where
  "decimal s = foldl (\<lambda>n c. 10 * n + (of_char c - 48)) 0 s"

definition to_numeric_value :: "string \<Rightarrow> py_error + rat option" where
  "to_numeric_value s =
     (if s = [] then Inr None
      else if list_all is_digit s then Inr (Some (of_int (decimal s)))
      else Inl ValueError)"

definition to_numeric :: "string list \<Rightarrow> py_error + rat option list" where
  "to_numeric col = series_apply to_numeric_value col"

definition convert_columns :: "text_row list \<Rightarrow> py_error + row list" where
  "convert_columns df =
     and_then (to_numeric (map bed df)) (\<lambda>c_bed.
     and_then (to_numeric (map bath df)) (\<lambda>c_bath.
     and_then (to_numeric (map toilet df)) (\<lambda>c_toilet.
     and_then (to_numeric (map pkn_space df)) (\<lambda>c_pkn_space.
     and_then (to_numeric (map price df)) (\<lambda>c_price.
     Inr (from_columns (map title df) (map address df)
            c_bed c_bath c_toilet c_pkn_space c_price))))))"

subsection \<open>Lines 109 to 116: the row filters\<close>

text \<open>A comparison with NaN on either side is false.\<close>

fun less_num :: "rat option \<Rightarrow> rat option \<Rightarrow> bool" where
  "less_num (Some a) (Some b) = (a < b)"
| "less_num _ _ = False"

fun le_num :: "rat option \<Rightarrow> rat option \<Rightarrow> bool" where
  "le_num (Some a) (Some b) = (a \<le> b)"
| "le_num _ _ = False"

definition range_filters :: "row list \<Rightarrow> row list" where
  "range_filters df =
     (let df = filter (\<lambda>r. less_num (Some 1) (bed r) \<and> less_num (toilet r) (Some 8)) df;
          df = filter (\<lambda>r. less_num (Some 1) (bath r) \<and> less_num (bath r) (Some 8)) df;
          df = filter (\<lambda>r. less_num (Some 2) (pkn_space r) \<and> less_num (pkn_space r) (Some 11)) df
      in df)"

text \<open>
  \<open>np.percentile(a, q)\<close> for \<open>q\<close> from 0 to 100, with the default linear interpolation
  between the two neighbours of the position \<open>(n - 1) * q / 100\<close> in the sorted values. It
  is NaN when a value is NaN, and NaN on no values at all (some versions of numpy raise an
  \<open>IndexError\<close> there; the filter of line 116 has no row to keep in either case). The
  arithmetic is exact here, where numpy rounds to 64-bit floats.
\<close>

definition percentile :: "rat option list \<Rightarrow> nat \<Rightarrow> rat option" where
  "percentile a q =
     (case those a of
        None \<Rightarrow> None
      | Some vs \<Rightarrow>
          if vs = [] then None
          else
            let s = sort vs;
                k = (length s - 1) * q;
                previous = k div 100;
                next = min (previous + 1) (length s - 1);
                gamma = of_nat (k mod 100) / 100
            in Some (s ! previous + gamma * (s ! next - s ! previous)))"

definition price_filter :: "row list \<Rightarrow> row list" where
  "price_filter df =
     (let cut_off = percentile (map price df) 96
      in filter (\<lambda>r. le_num (price r) cut_off) df)"

definition filter_rows :: "row list \<Rightarrow> row list" where
  "filter_rows df = price_filter (range_filters df)"

subsection \<open>Lines 117 to 119: the median for missing parking spaces\<close>

text \<open>\<open>Series.median\<close> skips NaN; it is NaN when no value is left.\<close>

definition median :: "rat option list \<Rightarrow> rat option" where
  "median a =
     (let s = sort (concat (map (\<lambda>x. case x of None \<Rightarrow> [] | Some v \<Rightarrow> [v]) a));
          n = length s
      in if n = 0 then None
         else if odd n then Some (s ! (n div 2))
         else Some ((s ! (n div 2 - 1) + s ! (n div 2)) / 2))"

definition fill_pkn_space :: "row list \<Rightarrow> row list" where
  "fill_pkn_space df =
     (let m = median (map pkn_space df)
      in map (\<lambda>r. r\<lparr>pkn_space := (if pkn_space r = None then m else pkn_space r)\<rparr>) df)"

subsection \<open>Lines 126 to 132: the fifteen most frequent locations\<close>

text \<open>
  \<open>pd.crosstab\<close> counts every value of the column; its index is sorted. \<open>sort_values\<close>
  orders the counts downwards; among equal counts the earlier index comes first here (the
  order among equal counts is left to numpy's sort). \<open>locations\<close> and
  \<open>select_locations\<close> are the list of line 129 and the table of line 132 for a table with
  rows; what the lines do on a table without rows is \<open>keep_top_locations\<close> below.
\<close>

definition crosstab :: "string list \<Rightarrow> (string \<times> nat) list" where
  "crosstab col = map (\<lambda>l. (l, count_list col l)) (sort (remdups col))"

definition sort_values_descending :: "(string \<times> nat) list \<Rightarrow> (string \<times> nat) list" where
  "sort_values_descending t = sort_key (\<lambda>p. - int (snd p)) t"

definition locations :: "row list \<Rightarrow> string list" where
  "locations df =
     (let addr_count = sort_values_descending (crosstab (map address df));
          addr_count = take 15 addr_count
      in map fst addr_count)"

definition select_locations :: "row list \<Rightarrow> row list" where
  "select_locations df = filter (\<lambda>r. address r \<in> set (locations df)) df"

text \<open>
  Line 127 gives the table of counts its one column name. The crosstab of a table without
  rows has no column, and the assignment raises a \<open>ValueError\<close>: the location step as the
  pipeline runs it ends the run on an empty table.
\<close>

definition keep_top_locations :: "row list \<Rightarrow> py_error + row list" where
  "keep_top_locations df = (if df = [] then Inl ValueError else Inr (select_locations df))"

subsection \<open>Lines 92 to 132 as a whole\<close>

text \<open>
  When no row passes the range filters the run ends with an exception in any case: here at
  line 127, in a numpy whose \<open>percentile\<close> raises on no values already at line 115.
\<close>

definition clean_data :: "raw_row list \<Rightarrow> py_error + row list" where
  "clean_data data =
     and_then (clean_columns (dropna data)) (\<lambda>df.
     and_then (convert_columns df) (\<lambda>df.
     keep_top_locations (fill_pkn_space (filter_rows df))))"

subsection \<open>Lines 134 to 139: the encoders and the logarithm of the price\<close>

text \<open>
  A \<open>LabelEncoder\<close> is its sorted list of classes. \<open>transform\<close> raises on a label that is
  not a class and gives every other label its position.
\<close>

definition fit :: "string list \<Rightarrow> string list" where
  "fit y = sort (remdups y)"

definition transform :: "string list \<Rightarrow> string list \<Rightarrow> py_error + nat list" where
  "transform classes y =
     (let unseen = filter (\<lambda>l. l \<notin> set classes) (sort (remdups y))
      in if unseen \<noteq> [] then Inl (UnseenLabels unseen)
         else Inr (map (\<lambda>l. length (takeWhile (\<lambda>c. c \<noteq> l) classes)) y))"

definition log_price :: "real \<Rightarrow> real" where
  "log_price p = ln (p + 1)"

section \<open>The predictor of server.py\<close>

text \<open>
  The artifact that \<open>load_estimator\<close> returns: the regressor, taken as it is (a function
  from the row of features to a price on the logarithmic scale, or an exception), and the
  classes of the two encoders. The form holds the five fields of the request as strings.
\<close>

record estimator =
  reg :: "string list \<Rightarrow> py_error + real"
  le_type :: "string list"
  le_location :: "string list"

record request_form =
  form_location :: string
  form_bed :: string
  form_bath :: string
  form_toilet :: string
  form_pkn_space :: string

text \<open>A number written in decimal, as numpy stores a code into an array of strings.\<close>

fun str_of_nat :: "nat \<Rightarrow> string" where
  "str_of_nat n =
     (if n < 10 then [char_of (48 + n)]
      else str_of_nat (n div 10) @ [char_of (48 + n mod 10)])"

declare str_of_nat.simps [simp del]

text \<open>\<open>round(x, 0)\<close> on a float: to the nearest whole number, a half to the even one.\<close>

definition round_half_even :: "real \<Rightarrow> int" where
  "round_half_even x =
     (let f = \<lfloor>x\<rfloor>; d = x - of_int f
      in if d < 1 / 2 then f else if 1 / 2 < d then f + 1 else if even f then f else f + 1)"

text \<open>Line 35: the price from its logarithm.\<close>

definition act_price :: "real \<Rightarrow> real" where
  "act_price p = exp p + 1"

text \<open>
  \<open>predict\<close>: the row of strings, the code of the location written into its first place
  (cut to the width of the array, the longest of the five strings), the regressor, the
  inversion and the rounding. The result is the amount that the page shows.
\<close>

definition predict :: "estimator \<Rightarrow> request_form \<Rightarrow> py_error + int" where
  "predict est frm =
     (let new_data = [form_location frm, form_bed frm, form_bath frm, form_toilet frm,
                      form_pkn_space frm];
          width = max 1 (foldr max (map length new_data) 0)
      in and_then (transform (le_location est) [new_data ! 0]) (\<lambda>codes.
         let new_data = new_data[0 := take width (str_of_nat (codes ! 0))]
         in and_then (reg est new_data) (\<lambda>p.
            Inr (round_half_even (act_price p)))))"

section \<open>The keywords in Unicode text\<close>

text \<open>
  \<open>re.I\<close> and \<open>str.title\<close> work on code points, with the case tables of Unicode. Here a
  text is a list of code points and the tables are a parameter: the simple lower case that
  \<open>re\<close> compares, the lower case and the title case of \<open>str.title\<close> (which can be more
  than one character; the lower case of a capital sigma depends on its place in the text),
  and the characters that have a case.
\<close>

record case_tables =
  to_lower :: "nat \<Rightarrow> nat"
  lower_at :: "nat list \<Rightarrow> nat \<Rightarrow> nat list"
  title_full :: "nat \<Rightarrow> nat list"
  cased :: "nat \<Rightarrow> bool"

text \<open>
  What the compiler of \<open>re\<close> makes of a character of the pattern under \<open>re.I\<close>: a
  character without case must be met exactly; a letter is compared with the simple lower
  case of the character of the text; for \<open>i\<close> and \<open>s\<close> the dotless i (U+0131) and the long
  s (U+017F) are accepted as well. The pattern of line 65 is ASCII.
\<close>

datatype op = Literal nat | Literal_ignore nat | In_ignore "nat list"

definition compile_literal :: "char \<Rightarrow> op" where
  "compile_literal p =
     (if \<not> is_cased p then Literal (of_char p)
      else if lower p = CHR ''i'' then In_ignore [105, 305]
      else if lower p = CHR ''s'' then In_ignore [115, 383]
      else Literal_ignore (of_char (lower p)))"

fun matches :: "case_tables \<Rightarrow> op \<Rightarrow> nat \<Rightarrow> bool" where
  "matches u (Literal k) c = (c = k)"
| "matches u (Literal_ignore k) c = (to_lower u c = k)"
| "matches u (In_ignore ks) c = (to_lower u c \<in> set ks)"

fun match_literal_u :: "case_tables \<Rightarrow> string \<Rightarrow> nat list \<Rightarrow> nat list option" where
  "match_literal_u u [] t = Some []"
| "match_literal_u u (p # ps) [] = None"
| "match_literal_u u (p # ps) (c # cs) =
     (if matches u (compile_literal p) c then map_option ((#) c) (match_literal_u u ps cs)
      else None)"

fun match_alternatives_u :: "case_tables \<Rightarrow> string list \<Rightarrow> nat list \<Rightarrow> nat list option" where
  "match_alternatives_u u [] t = None"
| "match_alternatives_u u (p # ps) t =
     (case match_literal_u u p t of
        Some m \<Rightarrow> Some m
      | None \<Rightarrow> match_alternatives_u u ps t)"

lemma match_literal_u_length: "match_literal_u u p t = Some m \<Longrightarrow> length m = length p"
  by (induction u p t arbitrary: m rule: match_literal_u.induct) (auto split: if_splits)

lemma match_literal_u_shorter: "match_literal_u u p t = Some m \<Longrightarrow> length m \<le> length t"
  by (induction u p t arbitrary: m rule: match_literal_u.induct) (auto split: if_splits)

lemma match_alternatives_u_literal:
  "match_alternatives_u u ps t = Some m \<Longrightarrow> \<exists>p\<in>set ps. match_literal_u u p t = Some m"
  by (induction ps) (auto split: option.splits)

lemma match_pattern_u_length:
  "match_alternatives_u u pattern t = Some m \<Longrightarrow> 0 < length m \<and> length m \<le> length t"
proof -
  assume "match_alternatives_u u pattern t = Some m"
  then obtain p where p: "p \<in> set pattern" "match_literal_u u p t = Some m"
    using match_alternatives_u_literal by blast
  have "p \<noteq> []"
    using p(1) by (auto simp: pattern_def)
  then show ?thesis
    using match_literal_u_length [OF p(2)] match_literal_u_shorter [OF p(2)] by simp
qed

function findall_u :: "case_tables \<Rightarrow> nat list \<Rightarrow> nat list list" where
  "findall_u u [] = []"
| "findall_u u (c # cs) =
     (case match_alternatives_u u pattern (c # cs) of
        None \<Rightarrow> findall_u u cs
      | Some m \<Rightarrow> m # findall_u u (drop (length m) (c # cs)))"
  by pat_completeness auto
termination
  by (relation "measure (\<lambda>(u, t). length t)") (auto dest: match_pattern_u_length)

text \<open>
  \<open>s.title()\<close>: the loop over the positions \<open>i\<close> of \<open>s\<close>, with the rest of the text from
  \<open>i\<close> on and whether the character before has a case.
\<close>

fun title_from_u :: "case_tables \<Rightarrow> nat list \<Rightarrow> nat \<Rightarrow> bool \<Rightarrow> nat list \<Rightarrow> nat list" where
  "title_from_u u s i previous_is_cased [] = []"
| "title_from_u u s i previous_is_cased (c # cs) =
     (if previous_is_cased then lower_at u s i else title_full u c) @
     title_from_u u s (Suc i) (cased u c) cs"

definition str_title_u :: "case_tables \<Rightarrow> nat list \<Rightarrow> nat list" where
  "str_title_u u s = title_from_u u s 0 False s"

definition extract_details_u :: "case_tables \<Rightarrow> nat list \<Rightarrow> nat list" where
  "extract_details_u u t =
     (let result = findall_u u t;
          result = str_join [32] result
      in str_title_u u result)"

text \<open>
  Tables that are right on ASCII: there the three mappings are those of the ASCII letters
  and give one character.
\<close>

definition ascii_tables :: "case_tables \<Rightarrow> bool" where
  "ascii_tables u =
     (\<forall>c < 128.
        to_lower u c = of_char (lower (char_of c)) \<and>
        title_full u c = [of_char (upper (char_of c))] \<and>
        cased u c = is_cased (char_of c) \<and>
        (\<forall>s i. i < length s \<and> s ! i = c \<longrightarrow> lower_at u s i = [of_char (lower (char_of c))]))"

text \<open>
  An excerpt of Python's tables: its values on ASCII, on the four characters outside ASCII
  whose simple lower case is a letter of the pattern or one of its two companions (the
  dotted capital I U+0130, the dotless i U+0131, the long s U+017F, the Kelvin sign
  U+212A), and on the combining dot U+0307. Every other character stands for itself and
  has no case here.
\<close>

definition excerpt_tables :: case_tables where
  "excerpt_tables =
     \<lparr>to_lower = (\<lambda>c. if c < 128 then of_char (lower (char_of c))
                      else if c = 304 then 105 else if c = 8490 then 107 else c),
      lower_at = (\<lambda>s i. let c = s ! i
                      in if c < 128 then [of_char (lower (char_of c))]
                         else if c = 304 then [105, 775] else if c = 8490 then [107] else [c]),
      title_full = (\<lambda>c. if c < 128 then [of_char (upper (char_of c))]
                      else if c = 305 then [73] else if c = 383 then [83] else [c]),
      cased = (\<lambda>c. if c < 128 then is_cased (char_of c) else c \<in> {304, 305, 383, 8490})\<rparr>"

text \<open>An ASCII text as code points.\<close>

definition codes :: "string \<Rightarrow> nat list" where
  "codes s = map of_char s"

section \<open>Notions for stating the results\<close>

text \<open>
  A table whose cells are all strings, and what the three stages make of one of its rows:
  the cleaners field by field, then the numbers. \<open>first_error\<close> is the exception of the
  cleaning loop, which works column by column: the first column with a cell that is not a
  string decides it.
\<close>

definition is_str :: "cell \<Rightarrow> bool" where
  "is_str c = (case c of Str s \<Rightarrow> True | _ \<Rightarrow> False)"

definition str_of :: "cell \<Rightarrow> string" where
  "str_of c = (case c of Str s \<Rightarrow> s | _ \<Rightarrow> [])"

definition strings_only :: "raw_row \<Rightarrow> bool" where
  "strings_only r =
     (is_str (title r) \<and> is_str (address r) \<and> is_str (bed r) \<and> is_str (bath r) \<and>
      is_str (toilet r) \<and> is_str (pkn_space r) \<and> is_str (price r))"

definition str_row :: "text_row \<Rightarrow> raw_row" where
  "str_row r =
     \<lparr>title = Str (title r), address = Str (address r), bed = Str (bed r), bath = Str (bath r),
      toilet = Str (toilet r), pkn_space = Str (pkn_space r), price = Str (price r)\<rparr>"

definition clean_row :: "raw_row \<Rightarrow> text_row" where
  "clean_row r =
     \<lparr>title = extract_details (str_of (title r)), address = get_address (str_of (address r)),
      bed = clean_text (str_of (bed r)), bath = clean_text (str_of (bath r)),
      toilet = clean_text (str_of (toilet r)), pkn_space = clean_text (str_of (pkn_space r)),
      price = clean_text (str_of (price r))\<rparr>"

definition clean_strings :: "text_row \<Rightarrow> text_row" where
  "clean_strings r =
     \<lparr>title = extract_details (title r), address = get_address (address r),
      bed = clean_text (bed r), bath = clean_text (bath r), toilet = clean_text (toilet r),
      pkn_space = clean_text (pkn_space r), price = clean_text (price r)\<rparr>"

definition number_of :: "string \<Rightarrow> rat option" where
  "number_of s = (if s = [] then None else Some (of_int (decimal s)))"

definition convert_row :: "text_row \<Rightarrow> row" where
  "convert_row r =
     \<lparr>title = title r, address = address r, bed = number_of (bed r), bath = number_of (bath r),
      toilet = number_of (toilet r), pkn_space = number_of (pkn_space r),
      price = number_of (price r)\<rparr>"

definition digits_only :: "text_row \<Rightarrow> bool" where
  "digits_only r =
     (list_all is_digit (bed r) \<and> list_all is_digit (bath r) \<and> list_all is_digit (toilet r) \<and>
      list_all is_digit (pkn_space r) \<and> list_all is_digit (price r))"

definition first_error :: "raw_row list \<Rightarrow> py_error option" where
  "first_error df =
     (if \<not> list_all (\<lambda>r. is_str (title r)) df then Some TypeError
      else if \<not> list_all (\<lambda>r. is_str (address r)) df then Some AttributeError
      else if \<not> list_all (\<lambda>r. is_str (bed r) \<and> is_str (bath r) \<and> is_str (toilet r) \<and>
                               is_str (pkn_space r) \<and> is_str (price r)) df
      then Some TypeError
      else None)"

text \<open>A text of ASCII characters only.\<close>

definition ascii :: "string \<Rightarrow> bool" where
  "ascii s = list_all (\<lambda>c. (of_char c :: nat) < 128) s"

text \<open>The three range filters of lines 109 to 113 as one predicate.\<close>

definition in_range :: "row \<Rightarrow> bool" where
  "in_range r =
     (less_num (Some 1) (bed r) \<and> less_num (toilet r) (Some 8) \<and>
      less_num (Some 1) (bath r) \<and> less_num (bath r) (Some 8) \<and>
      less_num (Some 2) (pkn_space r) \<and> less_num (pkn_space r) (Some 11))"

subsection \<open>Example tables\<close>

text \<open>Three scraped listings; the third has one bedroom only.\<close>

definition example_listings :: "text_row list" where
  "example_listings =
     [\<lparr>title = ''3 bedroom detached duplex'', address = ''Chevron, Lekki, Lagos'',
       bed = ''3 beds'', bath = ''3 baths'', toilet = ''4 Toilets'',
       pkn_space = ''3 Parking Spaces'', price = ''N35,000,000''\<rparr>,
      \<lparr>title = ''4 bedroom terraced house'', address = ''Ikoyi, Lagos'',
       bed = ''4 beds'', bath = ''4 baths'', toilet = ''5 Toilets'',
       pkn_space = ''4 Parking Spaces'', price = ''N90,000,000''\<rparr>,
      \<lparr>title = ''1 bedroom bungalow'', address = ''Ajah, Lagos'',
       bed = ''1 beds'', bath = ''1 baths'', toilet = ''1 Toilets'',
       pkn_space = ''1 Parking Spaces'', price = ''N9,000,000''\<rparr>]"

text \<open>What the pipeline keeps of them.\<close>

definition example_cleaned :: row where
  "example_cleaned =
     \<lparr>title = ''Detached Duplex'', address = ''Lekki'', bed = Some 3, bath = Some 3,
      toilet = Some 4, pkn_space = Some 3, price = Some 35000000\<rparr>"

text \<open>A listing without a price, one without a number of bedrooms, and a row whose
  counts were read as numbers.\<close>

definition example_no_price :: text_row where
  "example_no_price =
     \<lparr>title = ''5 bedroom mansion'', address = ''Banana Island, Ikoyi, Lagos'',
      bed = ''5 beds'', bath = ''5 baths'', toilet = ''6 Toilets'',
      pkn_space = ''6 Parking Spaces'', price = ''Price on request''\<rparr>"

definition example_no_bed :: text_row where
  "example_no_bed =
     \<lparr>title = ''Block of flats'', address = ''Yaba, Lagos'',
      bed = ''beds'', bath = ''4 baths'', toilet = ''5 Toilets'',
      pkn_space = ''4 Parking Spaces'', price = ''N60,000,000''\<rparr>"

definition example_numbers :: raw_row where
  "example_numbers =
     \<lparr>title = Str ''5 bedroom mansion'', address = Str ''Banana Island, Ikoyi, Lagos'',
      bed = Num 5, bath = Num 5, toilet = Num 6, pkn_space = Num 6,
      price = Str ''N500,000,000''\<rparr>"

text \<open>A listing inside every range, at a location and a price.\<close>

definition listing_at :: "string \<Rightarrow> rat \<Rightarrow> row" where
  "listing_at l p =
     \<lparr>title = ''House'', address = l, bed = Some 3, bath = Some 3, toilet = Some 4,
      pkn_space = Some 3, price = Some p\<rparr>"

definition example_prices :: "row list" where
  "example_prices =
     [listing_at ''Lekki'' 10000000, listing_at ''Lekki'' 20000000,
      listing_at ''Lekki'' 30000000]"

text \<open>Seventeen listings at sixteen locations: two at \<open>Yaba\<close>, one at each other.\<close>

definition example_locations :: "row list" where
  "example_locations =
     map (\<lambda>l. listing_at l 10000000)
       [''Yaba'', ''Ajah'', ''Apapa'', ''Badagry'', ''Epe'', ''Festac'', ''Gbagada'', ''Ibeju'',
        ''Ikeja'', ''Ikorodu'', ''Ikoyi'', ''Lekki'', ''Magodo'', ''Ojodu'', ''Surulere'',
        ''Victoria Island'', ''Yaba'']"

text \<open>An artifact, whose regressor answers the logarithmic price of 35000000 whatever the
  features, and a request.\<close>

definition example_estimator :: estimator where
  "example_estimator =
     \<lparr>reg = (\<lambda>x. Inr (ln 35000001)), le_type = [''Duplex'', ''House''],
      le_location = [''Ikoyi'', ''Lekki'']\<rparr>"

definition example_form :: "string \<Rightarrow> request_form" where
  "example_form l =
     \<lparr>form_location = l, form_bed = ''3'', form_bath = ''3'', form_toilet = ''4'',
      form_pkn_space = ''3''\<rparr>"

section \<open>Facts about the string operations\<close>

lemma split_from_length: "length (split_from d seg s) = Suc (count_list s d)"
  by (induction s arbitrary: seg) auto

lemma str_split_length: "length (str_split d s) = Suc (count_list s d)"
  by (simp add: str_split_def split_from_length)

lemma split_from_join: "str_join [d] (split_from d seg s) = seg @ s"
proof (induction s arbitrary: seg)
  case Nil
  show ?case by simp
next
  case (Cons c cs)
  obtain w ws where w: "split_from d [] cs = w # ws"
    using split_from_length [of d "[]" cs] by (cases "split_from d [] cs") auto
  show ?case
  proof (cases "c = d")
    case True
    have "str_join [d] (seg # w # ws) = seg @ [d] @ str_join [d] (w # ws)"
      by simp
    also have "str_join [d] (w # ws) = cs"
      using Cons.IH [of "[]"] w by simp
    finally show ?thesis
      using True w by simp
  next
    case False
    then show ?thesis
      using Cons.IH [of "seg @ [c]"] by simp
  qed
qed

lemma str_split_join: "str_join [d] (str_split d s) = s"
  by (simp add: str_split_def split_from_join)

lemma split_from_no_sep:
  "d \<notin> set seg \<Longrightarrow> w \<in> set (split_from d seg s) \<Longrightarrow> d \<notin> set w"
proof (induction s arbitrary: seg)
  case Nil
  then show ?case by simp
next
  case (Cons c cs)
  show ?case
  proof (cases "c = d")
    case True
    then have "w = seg \<or> w \<in> set (split_from d [] cs)"
      using Cons.prems by simp
    then show ?thesis
      using Cons.prems(1) Cons.IH [of "[]"] by auto
  next
    case False
    then show ?thesis
      using Cons.prems Cons.IH [of "seg @ [c]"] by simp
  qed
qed

lemma str_split_no_sep: "w \<in> set (str_split d s) \<Longrightarrow> d \<notin> set w"
  using split_from_no_sep [of d "[]" w s] by (simp add: str_split_def)

lemma str_strip_decompose:
  "\<exists>pre post. s = pre @ str_strip s @ post \<and> list_all is_space pre \<and> list_all is_space post"
proof -
  let ?t = "dropWhile is_space s"
  have 1: "s = takeWhile is_space s @ ?t"
    by simp
  have 2: "?t = str_strip s @ rev (takeWhile is_space (rev ?t))"
  proof -
    have "rev (takeWhile is_space (rev ?t) @ dropWhile is_space (rev ?t)) = ?t"
      by (simp only: takeWhile_dropWhile_id rev_rev_ident)
    then have "rev (dropWhile is_space (rev ?t)) @ rev (takeWhile is_space (rev ?t)) = ?t"
      by (simp only: rev_append)
    then show ?thesis
      by (simp add: str_strip_def)
  qed
  have 3: "list_all is_space (takeWhile is_space s)"
    by (auto simp: list_all_iff dest: set_takeWhileD)
  have 4: "list_all is_space (rev (takeWhile is_space (rev ?t)))"
    by (auto simp: list_all_iff dest: set_takeWhileD)
  show ?thesis
    using 1 2 3 4 by (metis append.assoc)
qed

lemma str_strip_no_leading: "str_strip s \<noteq> [] \<Longrightarrow> \<not> is_space (hd (str_strip s))"
proof -
  assume a: "str_strip s \<noteq> []"
  let ?t = "dropWhile is_space s"
  have t: "?t \<noteq> []"
  proof
    assume e: "?t = []"
    have "str_strip s = []"
      unfolding str_strip_def e by simp
    then show False
      using a by simp
  qed
  have h: "\<not> is_space (hd ?t)"
    using t by (simp add: hd_dropWhile)
  have "str_strip s = take (length (str_strip s)) ?t"
    by (metis append_eq_conv_conj str_strip_def rev_rev_ident rev_append
        takeWhile_dropWhile_id)
  then have "hd (str_strip s) = hd ?t"
    using a by (metis hd_take length_greater_0_conv)
  then show ?thesis
    using h by simp
qed

lemma str_strip_no_trailing: "str_strip s \<noteq> [] \<Longrightarrow> \<not> is_space (last (str_strip s))"
proof -
  assume a: "str_strip s \<noteq> []"
  let ?u = "dropWhile is_space (rev (dropWhile is_space s))"
  have u: "?u \<noteq> []"
    using a by (simp add: str_strip_def)
  have "\<not> is_space (hd ?u)"
    using u by (simp add: hd_dropWhile)
  moreover have "last (str_strip s) = hd ?u"
    using u by (simp add: str_strip_def last_rev)
  ultimately show ?thesis
    by simp
qed

lemma py_slice_second_last:
  "2 \<le> length xs \<Longrightarrow> py_slice xs (- 2) (- 1) = [xs ! (length xs - 2)]"
proof -
  assume a: "2 \<le> length xs"
  have s: "slice_index (length xs) (- 2) = length xs - 2"
    using a by (simp add: slice_index_def nat_diff_distrib')
  have e: "slice_index (length xs) (- 1) = length xs - 1"
    using a by (simp add: slice_index_def nat_diff_distrib')
  have d: "length xs - 1 - (length xs - 2) = 1"
    using a by simp
  have "take 1 (drop (length xs - 2) xs) = [xs ! (length xs - 2)]"
    using a by (simp add: take_Suc_conv_app_nth hd_drop_conv_nth take_Suc)
  then show ?thesis
    unfolding py_slice_def Let_def s e d .
qed

lemma py_slice_short: "length xs < 2 \<Longrightarrow> py_slice xs (- 2) (- 1) = []"
  by (auto simp: py_slice_def slice_index_def)

section \<open>Facts about the cleaners\<close>

subsection \<open>Letters\<close>

lemma of_char_lower:
  "is_upper c \<Longrightarrow> (of_char (lower c) :: nat) = of_char c + 32"
  by (simp add: lower_def is_upper_def take_bit_eq_mod)

lemma of_char_upper:
  "is_lower c \<Longrightarrow> (of_char (upper c) :: nat) = of_char c - 32"
proof -
  assume l: "is_lower c"
  then have "(of_char c :: nat) - 32 < 256"
    unfolding is_lower_def by arith
  then show ?thesis
    using l by (simp add: upper_def take_bit_eq_mod)
qed

lemma lower_not_upper [simp]: "\<not> is_upper c \<Longrightarrow> lower c = c"
  by (simp add: lower_def)

lemma upper_not_lower [simp]: "\<not> is_lower c \<Longrightarrow> upper c = c"
  by (simp add: upper_def)

lemma is_lower_lower: "is_upper c \<Longrightarrow> is_lower (lower c)"
  using of_char_lower [of c] by (simp add: is_lower_def is_upper_def)

lemma is_upper_upper: "is_lower c \<Longrightarrow> is_upper (upper c)"
proof -
  assume l: "is_lower c"
  then have "65 \<le> (of_char c :: nat) - 32 \<and> (of_char c :: nat) - 32 \<le> 90"
    unfolding is_lower_def by arith
  then show ?thesis
    using of_char_upper [OF l] by (simp add: is_upper_def)
qed

lemma not_upper_lower: "is_lower c \<Longrightarrow> \<not> is_upper c"
  by (simp add: is_lower_def is_upper_def)

lemma upper_lower_cancel: "is_upper c \<Longrightarrow> upper (lower c) = c"
proof -
  assume u: "is_upper c"
  have "(of_char (upper (lower c)) :: nat) = of_char (lower c) - 32"
    using of_char_upper [OF is_lower_lower [OF u]] .
  then have "(of_char (upper (lower c)) :: nat) = of_char c"
    using of_char_lower [OF u] by simp
  then show ?thesis
    by (metis char_of_char)
qed

lemma lower_upper_cancel: "is_lower c \<Longrightarrow> lower (upper c) = c"
proof -
  assume l: "is_lower c"
  have "(of_char (lower (upper c)) :: nat) = of_char (upper c) + 32"
    using of_char_lower [OF is_upper_upper [OF l]] .
  then have "(of_char (lower (upper c)) :: nat) = of_char c"
    using of_char_upper [OF l] l by (simp add: is_lower_def)
  then show ?thesis
    by (metis char_of_char)
qed

lemma lower_lower [simp]: "lower (lower c) = lower c"
  by (cases "is_upper c") (simp_all add: is_lower_lower not_upper_lower)

lemma not_lower_upper: "is_upper c \<Longrightarrow> \<not> is_lower c"
  by (simp add: is_lower_def is_upper_def)

lemma upper_lower [simp]: "upper (lower c) = upper c"
  by (cases "is_upper c") (simp_all add: upper_lower_cancel not_lower_upper)

lemma is_cased_lower [simp]: "is_cased (lower c) = is_cased c"
  by (cases "is_upper c") (simp_all add: is_cased_def is_lower_lower)

lemma title_from_lower: "title_from b (map lower m) = title_from b m"
  by (induction m arbitrary: b) simp_all

lemma match_literal_lower: "match_literal p t = Some m \<Longrightarrow> map lower m = map lower p"
  by (induction p t arbitrary: m rule: match_literal.induct) (auto split: if_splits)

lemma title_from_blank:
  "title_from b (x @ CHR '' '' # rest) = title_from b x @ CHR '' '' # title_from False rest"
  by (induction x arbitrary: b)
    (simp_all add: lower_def upper_def is_upper_def is_lower_def is_cased_def)

lemma title_from_join:
  "title_from False (str_join '' '' ms) = str_join '' '' (map (title_from False) ms)"
proof (induction ms)
  case Nil
  show ?case by simp
next
  case (Cons x xs)
  then show ?case
    by (cases xs) (simp_all add: title_from_blank)
qed

lemmas char_defs = lower_def upper_def is_upper_def is_lower_def is_cased_def char_of_eq_iff

lemma titles_pattern: "map str_title pattern = keyword_titles"
  by (simp add: pattern_def keyword_titles_def str_title_def char_defs)

lemma title_titles: "w \<in> set keyword_titles \<Longrightarrow> title_from False w = w"
  by (auto simp: keyword_titles_def char_defs)

lemma match_titles: "w \<in> set keyword_titles \<Longrightarrow> match_alternatives pattern (w @ rest) = Some w"
  by (auto simp: keyword_titles_def pattern_def char_defs)

lemma match_blank: "match_alternatives pattern (CHR '' '' # rest) = None"
  by (simp add: pattern_def char_defs)

lemma findall_title: "w \<in> set keyword_titles \<Longrightarrow> findall (w @ rest) = w # findall rest"
proof -
  assume w: "w \<in> set keyword_titles"
  then obtain c cs where c: "w = c # cs"
    by (cases w) (auto simp: keyword_titles_def)
  have "findall ((c # cs) @ rest) = w # findall (drop (length w) (w @ rest))"
    using match_titles [OF w, of rest] c by simp
  then show ?thesis
    using c by simp
qed

lemma findall_blank: "findall (CHR '' '' # rest) = findall rest"
  by (simp add: match_blank)

lemma findall_join_titles: "set ws \<subseteq> set keyword_titles \<Longrightarrow> findall (str_join '' '' ws) = ws"
proof (induction ws)
  case Nil
  show ?case by simp
next
  case (Cons w ws)
  show ?case
  proof (cases ws)
    case Nil
    then show ?thesis
      using Cons.prems findall_title [of w "[]"] by simp
  next
    case (Cons v vs)
    then show ?thesis
      using Cons.prems Cons.IH findall_title [of w "CHR '' '' # str_join '' '' (v # vs)"]
      by (simp add: match_blank)
  qed
qed

lemma findall_lower: "m \<in> set (findall t) \<Longrightarrow> map lower m \<in> set pattern"
proof (induction t rule: findall.induct)
  case 1
  then show ?case by simp
next
  case (2 c cs)
  show ?case
  proof (cases "match_alternatives pattern (c # cs)")
    case None
    then show ?thesis
      using 2 by simp
  next
    case (Some k)
    then obtain p where p: "p \<in> set pattern" "match_literal p (c # cs) = Some k"
      using match_alternatives_literal by blast
    have "map lower p = p"
      using p(1) by (auto simp: pattern_def char_defs)
    then have "map lower k \<in> set pattern"
      using match_literal_lower [OF p(2)] p(1) by simp
    then show ?thesis
      using 2 Some by auto
  qed
qed

lemma str_title_findall: "m \<in> set (findall t) \<Longrightarrow> title_from False m \<in> set keyword_titles"
proof -
  assume "m \<in> set (findall t)"
  then have "map lower m \<in> set pattern"
    by (rule findall_lower)
  then have "str_title (map lower m) \<in> set (map str_title pattern)"
    by simp
  then show ?thesis
    by (simp add: titles_pattern str_title_def title_from_lower)
qed

lemma extract_details_titles:
  "\<exists>ws. set ws \<subseteq> set keyword_titles \<and> extract_details t = str_join '' '' ws"
proof -
  have "extract_details t = str_join '' '' (map (title_from False) (findall t))"
    by (simp add: extract_details_def str_title_def title_from_join)
  moreover have "set (map (title_from False) (findall t)) \<subseteq> set keyword_titles"
    using str_title_findall by auto
  ultimately show ?thesis
    by blast
qed

text \<open>On ASCII text the result of \<open>extract_details\<close> is a fixed point.\<close>

lemma extract_details_idempotent: "extract_details (extract_details t) = extract_details t"
proof -
  obtain ws where ws: "set ws \<subseteq> set keyword_titles" "extract_details t = str_join '' '' ws"
    using extract_details_titles by blast
  have "extract_details (str_join '' '' ws) = str_title (str_join '' '' ws)"
    using findall_join_titles [OF ws(1)] by (simp add: extract_details_def)
  also have "\<dots> = str_join '' '' (map (title_from False) ws)"
    by (simp add: str_title_def title_from_join)
  also have "map (title_from False) ws = ws"
    using ws(1) by (induction ws) (auto simp: title_titles)
  finally show ?thesis
    using ws(2) by simp
qed

lemma extract_details_example:
  "extract_details ''4 bedroom SEMI-detached duplex'' = ''Semi-Detached Duplex''"
  by (simp add: extract_details_def pattern_def str_title_def char_defs)

section \<open>Facts about the keywords in Unicode text\<close>

subsection \<open>On ASCII text the two models agree\<close>

lemma ascii_simps [simp]:
  "ascii []" "ascii (c # cs) = ((of_char c :: nat) < 128 \<and> ascii cs)"
  "ascii (xs @ ys) = (ascii xs \<and> ascii ys)"
  by (simp_all add: ascii_def)

lemma ascii_drop: "ascii t \<Longrightarrow> ascii (drop n t)"
  by (auto simp: ascii_def list_all_iff dest: in_set_dropD)

lemma codes_simps [simp]:
  "codes [] = []" "codes (c # cs) = of_char c # codes cs" "codes (xs @ ys) = codes xs @ codes ys"
  "length (codes s) = length s"
  by (simp_all add: codes_def)

lemma codes_drop: "drop n (codes t) = codes (drop n t)"
  by (simp add: codes_def drop_map)

lemma ascii_tables_char:
  assumes "ascii_tables u" and "(of_char c :: nat) < 128"
  shows "to_lower u (of_char c) = of_char (lower c)"
    and "title_full u (of_char c) = [of_char (upper c)]"
    and "cased u (of_char c) = is_cased c"
    and "i < length s \<Longrightarrow> s ! i = of_char c \<Longrightarrow> lower_at u s i = [of_char (lower c)]"
  using assms unfolding ascii_tables_def by (auto simp: char_of_char)

lemma of_char_nat_less: "(of_char c :: nat) < 256"
  by (metis of_char_mod_256 mod_less_divisor zero_less_numeral)

lemma lower_eq_uncased: "\<not> is_cased p \<Longrightarrow> (lower c = p) = (c = p)"
proof (cases "is_upper c")
  case True
  assume p: "\<not> is_cased p"
  have "is_lower (lower c)"
    using True by (rule is_lower_lower)
  then have "lower c \<noteq> p"
    using p by (auto simp: is_cased_def)
  moreover have "c \<noteq> p"
    using True p by (auto simp: is_cased_def)
  ultimately show ?thesis
    by simp
next
  case False
  then show ?thesis
    by simp
qed

lemma matches_ascii:
  assumes "ascii_tables u" and "(of_char c :: nat) < 128"
  shows "matches u (compile_literal p) (of_char c) = (lower c = lower p)"
proof -
  have l: "to_lower u (of_char c) = of_char (lower c)"
    using assms by (rule ascii_tables_char)
  have b: "(of_char (lower c) :: nat) \<noteq> 305" "(of_char (lower c) :: nat) \<noteq> 383"
    using of_char_nat_less [of "lower c"] by linarith+
  have i: "((of_char (lower c) :: nat) = 105) = (lower c = CHR ''i'')"
    and s: "((of_char (lower c) :: nat) = 115) = (lower c = CHR ''s'')"
    by (auto simp: of_char_eq_iff [symmetric, where 'a = nat] simp del: of_char_eq_iff)
  show ?thesis
  proof (cases "is_cased p")
    case False
    then have "lower p = p"
      by (simp add: is_cased_def)
    then show ?thesis
      using False lower_eq_uncased [OF False, of c] by (simp add: compile_literal_def)
  next
    case True
    then show ?thesis
      using l b i s by (auto simp: compile_literal_def)
  qed
qed

lemma match_literal_u_ascii:
  "ascii_tables u \<Longrightarrow> ascii t \<Longrightarrow>
   match_literal_u u p (codes t) = map_option codes (match_literal p t)"
proof (induction p t rule: match_literal.induct)
  case (3 p ps c cs)
  then show ?case
    by (cases "match_literal ps cs") (simp_all add: matches_ascii)
qed simp_all

lemma match_alternatives_u_ascii:
  "ascii_tables u \<Longrightarrow> ascii t \<Longrightarrow>
   match_alternatives_u u ps (codes t) = map_option codes (match_alternatives ps t)"
  by (induction ps) (auto simp: match_literal_u_ascii split: option.splits)

lemma findall_u_ascii:
  "ascii_tables u \<Longrightarrow> ascii t \<Longrightarrow> findall_u u (codes t) = map codes (findall t)"
proof (induction t rule: findall.induct)
  case 1
  show ?case by simp
next
  case (2 c cs)
  have m: "match_alternatives_u u pattern (codes (c # cs)) =
           map_option codes (match_alternatives pattern (c # cs))"
    using 2(3,4) by (rule match_alternatives_u_ascii)
  show ?case
  proof (cases "match_alternatives pattern (c # cs)")
    case None
    then show ?thesis
      using 2 m by simp
  next
    case (Some k)
    have "findall_u u (codes (drop (length k) (c # cs))) =
          map codes (findall (drop (length k) (c # cs)))"
      using 2(2) [OF Some] 2(3) ascii_drop [OF 2(4)] by simp
    then show ?thesis
      using Some m by (simp add: codes_drop [symmetric])
  qed
qed

lemma str_join_codes: "str_join (codes sep) (map codes ws) = codes (str_join sep ws)"
  by (induction sep ws rule: str_join.induct) simp_all

lemma title_from_u_ascii:
  "ascii_tables u \<Longrightarrow> ascii cs \<Longrightarrow> drop i s = codes cs \<Longrightarrow>
   title_from_u u s i prev (codes cs) = codes (title_from prev cs)"
proof (induction cs arbitrary: i prev)
  case Nil
  show ?case by simp
next
  case (Cons c cs)
  have d: "drop i s = of_char c # codes cs"
    using Cons.prems(3) by simp
  have i: "i < length s"
    using d by (metis drop_all list.distinct(1) not_le)
  have n: "s ! i = of_char c"
    using d by (rule nth_via_drop)
  have r: "drop (Suc i) s = codes cs"
    using d by (metis drop_Suc list.sel(3) tl_drop)
  have a: "(of_char c :: nat) < 128" "ascii cs"
    using Cons.prems(2) by simp_all
  show ?case
    using Cons.IH [OF Cons.prems(1) a(2) r, of "is_cased c"]
      ascii_tables_char [OF Cons.prems(1) a(1)] i n
    by (simp add: lower_def upper_def)
qed

lemma str_title_u_ascii:
  "ascii_tables u \<Longrightarrow> ascii s \<Longrightarrow> str_title_u u (codes s) = codes (str_title s)"
  by (simp add: str_title_u_def str_title_def title_from_u_ascii)

lemma match_literal_take: "match_literal p t = Some m \<Longrightarrow> m = take (length m) t"
  by (induction p t arbitrary: m rule: match_literal.induct) (auto split: if_splits)

lemma findall_subset: "m \<in> set (findall t) \<Longrightarrow> set m \<subseteq> set t"
proof (induction t rule: findall.induct)
  case 1
  then show ?case by simp
next
  case (2 c cs)
  show ?case
  proof (cases "match_alternatives pattern (c # cs)")
    case None
    then show ?thesis
      using 2 by auto
  next
    case (Some k)
    then obtain p where "match_literal p (c # cs) = Some k"
      using match_alternatives_literal by blast
    then have "k = take (length k) (c # cs)"
      by (rule match_literal_take)
    then have k: "set k \<subseteq> set (c # cs)"
      by (metis set_take_subset)
    have "m = k \<or> m \<in> set (findall (drop (length k) (c # cs)))"
      using 2(3) Some by simp
    then show ?thesis
    proof
      assume "m = k"
      then show ?thesis using k by simp
    next
      assume "m \<in> set (findall (drop (length k) (c # cs)))"
      then have "set m \<subseteq> set (drop (length k) (c # cs))"
        using 2(2) [OF Some] by simp
      then show ?thesis
        using set_drop_subset by fastforce
    qed
  qed
qed

lemma ascii_str_join: "ascii sep \<Longrightarrow> \<forall>w\<in>set ws. ascii w \<Longrightarrow> ascii (str_join sep ws)"
  by (induction sep ws rule: str_join.induct) simp_all

lemma ascii_subset: "set m \<subseteq> set t \<Longrightarrow> ascii t \<Longrightarrow> ascii m"
  by (auto simp: ascii_def list_all_iff)

lemma blank_codes: "[32] = codes '' ''"
  by simp

lemma extract_details_u_ascii:
  assumes "ascii_tables u" and "ascii t"
  shows "extract_details_u u (codes t) = codes (extract_details t)"
proof -
  have "ascii (str_join '' '' (findall t))"
    using assms(2) findall_subset ascii_subset by (intro ascii_str_join) (simp, blast)
  then show ?thesis
    using assms
    by (simp add: extract_details_u_def extract_details_def findall_u_ascii blank_codes
        str_join_codes str_title_u_ascii del: codes_simps)
qed

lemma ascii_extract_details: "ascii (extract_details t)"
proof -
  obtain ws where ws: "set ws \<subseteq> set keyword_titles" "extract_details t = str_join '' '' ws"
    using extract_details_titles by blast
  have "\<forall>w\<in>set keyword_titles. ascii w"
    by (simp add: keyword_titles_def)
  then have "\<forall>w\<in>set ws. ascii w"
    using ws(1) by blast
  then show ?thesis
    unfolding ws(2) by (intro ascii_str_join) simp_all
qed

lemma codes_char_of: "\<forall>c\<in>set t. c < 128 \<Longrightarrow> codes (map char_of t) = t \<and> ascii (map char_of t)"
  by (induction t) (simp_all add: take_bit_eq_mod)

lemma ascii_excerpt_tables: "ascii_tables excerpt_tables"
  by (simp add: ascii_tables_def excerpt_tables_def)

subsection \<open>The dotted capital I\<close>

text \<open>
  \<open>mans\<close>, U+0130, \<open>on\<close>: the dotted capital I matches the \<open>i\<close> of \<open>mansion\<close>, and
  \<open>str.title\<close> turns it into \<open>i\<close> and the combining dot U+0307; in the result no keyword
  is found any more. Of the tables this uses their values on ASCII, on U+0130 and on
  U+0307 only.
\<close>

lemma dotted_I_any_tables:
  assumes "ascii_tables u" and "to_lower u 304 = 105" and "cased u 304"
    and "\<forall>s i. i < length s \<and> s ! i = 304 \<longrightarrow> lower_at u s i = [105, 775]"
    and "to_lower u 775 = 775"
  shows "extract_details_u u [109, 97, 110, 115, 304, 111, 110] =
           [77, 97, 110, 115, 105, 775, 111, 110] \<and>
         extract_details_u u [77, 97, 110, 115, 105, 775, 111, 110] = []"
proof -
  have r1: "\<And>c. c < 128 \<Longrightarrow> to_lower u c = of_char (lower (char_of c))"
    and r2: "\<And>c. c < 128 \<Longrightarrow> title_full u c = [of_char (upper (char_of c))]"
    and r3: "\<And>c. c < 128 \<Longrightarrow> cased u c = is_cased (char_of c)"
    and r4: "\<And>s i. i < length s \<Longrightarrow> s ! i < 128 \<Longrightarrow>
               lower_at u s i = [of_char (lower (char_of (s ! i)))]"
    using assms(1) unfolding ascii_tables_def by blast+
  have r5: "\<And>s i. i < length s \<Longrightarrow> s ! i = 304 \<Longrightarrow> lower_at u s i = [105, 775]"
    using assms(4) by blast
  show ?thesis
    by (simp add: extract_details_u_def str_title_u_def pattern_def compile_literal_def
        char_defs r1 r2 r3 r4 r5 assms(2,3,5))
qed

section \<open>Facts about the pipeline\<close>

subsection \<open>Cleaning and converting in closed form\<close>

lemma series_apply_call_on:
  "series_apply (call_on e g) (map h df) =
     (if list_all (\<lambda>r. is_str (h r)) df then Inr (map (\<lambda>r. g (str_of (h r))) df) else Inl e)"
  by (induction df) (auto simp: call_on_def is_str_def str_of_def split: cell.splits)

lemma from_columns_map:
  "from_columns (map f1 df) (map f2 df) (map f3 df) (map f4 df) (map f5 df) (map f6 df) (map f7 df) =
     map (\<lambda>r. \<lparr>title = f1 r, address = f2 r, bed = f3 r, bath = f4 r, toilet = f5 r,
                pkn_space = f6 r, price = f7 r\<rparr>) df"
  unfolding from_columns_def by (rule nth_equalityI) simp_all

lemma clean_columns_closed:
  "clean_columns df =
     (case first_error df of Some e \<Rightarrow> Inl e | None \<Rightarrow> Inr (map clean_row df))"
proof -
  have all: "list_all (\<lambda>r. is_str (bed r) \<and> is_str (bath r) \<and> is_str (toilet r) \<and>
                               is_str (pkn_space r) \<and> is_str (price r)) df =
     (list_all (\<lambda>r. is_str (bed r)) df \<and> list_all (\<lambda>r. is_str (bath r)) df \<and>
      list_all (\<lambda>r. is_str (toilet r)) df \<and> list_all (\<lambda>r. is_str (pkn_space r)) df \<and>
      list_all (\<lambda>r. is_str (price r)) df)"
    by (auto simp: list_all_iff)
  show ?thesis
    unfolding clean_columns_def first_error_def all series_apply_call_on
    by (simp add: from_columns_map clean_row_def [abs_def])
qed

lemma clean_text_filter: "clean_text s = filter is_digit s"
proof -
  have "re_sub_non_digits s = filter is_digit s"
  proof (induction s rule: re_sub_non_digits.induct)
    case 1
    show ?case by simp
  next
    case (2 c cs)
    have "filter is_digit (dropWhile (\<lambda>x. \<not> is_digit x) cs) = filter is_digit cs"
      by (induction cs) auto
    then show ?case
      using 2 by simp
  qed
  then show ?thesis
    by (simp add: clean_text_def)
qed

lemma to_numeric_value_digits:
  "list_all is_digit s \<Longrightarrow> to_numeric_value s = Inr (number_of s)"
  by (simp add: to_numeric_value_def number_of_def)

lemma to_numeric_digits:
  "list_all (\<lambda>r. list_all is_digit (h r)) df \<Longrightarrow>
   to_numeric (map h df) = Inr (map (\<lambda>r. number_of (h r)) df)"
  by (induction df) (simp_all add: to_numeric_def to_numeric_value_digits)

lemma convert_columns_digits:
  "list_all digits_only df \<Longrightarrow> convert_columns df = Inr (map convert_row df)"
proof -
  assume a: "list_all digits_only df"
  have "list_all (\<lambda>r. list_all is_digit (bed r)) df" "list_all (\<lambda>r. list_all is_digit (bath r)) df"
    "list_all (\<lambda>r. list_all is_digit (toilet r)) df" "list_all (\<lambda>r. list_all is_digit (pkn_space r)) df"
    "list_all (\<lambda>r. list_all is_digit (price r)) df"
    using a by (auto simp: list_all_iff digits_only_def)
  then show ?thesis
    by (simp add: convert_columns_def to_numeric_digits from_columns_map convert_row_def [abs_def])
qed

lemma digits_only_clean_row: "digits_only (clean_row r)"
  by (simp add: digits_only_def clean_row_def clean_text_filter list_all_iff)

lemma clean_data_closed:
  "clean_data data =
     (case first_error (dropna data) of
        Some e \<Rightarrow> Inl e
      | None \<Rightarrow> keep_top_locations (fill_pkn_space (filter_rows
                  (map (\<lambda>r. convert_row (clean_row r)) (dropna data)))))"
proof -
  have "convert_columns (map clean_row df) = Inr (map (\<lambda>r. convert_row (clean_row r)) df)" for df
    using convert_columns_digits [of "map clean_row df"]
    by (simp add: list_all_iff digits_only_clean_row comp_def)
  then show ?thesis
    by (simp add: clean_data_def clean_columns_closed split: option.splits)
qed

lemma first_error_None: "first_error df = None \<longleftrightarrow> list_all strings_only df"
  by (auto simp: first_error_def strings_only_def list_all_iff)

lemma strings_only_str_row: "strings_only (str_row r)"
  by (simp add: strings_only_def str_row_def is_str_def)

lemma clean_row_str_row: "clean_row (str_row r) = clean_strings r"
  by (simp add: clean_row_def str_row_def clean_strings_def str_of_def)

lemma dropna_str_rows: "dropna (map str_row t) = map str_row t"
  by (induction t) (simp_all add: dropna_def str_row_def is_na_def)

lemma dropna_append: "dropna (xs @ ys) = dropna xs @ dropna ys"
  by (simp add: dropna_def)

lemma dropna_str_row: "dropna (str_row r # ys) = str_row r # dropna ys"
  by (simp add: dropna_def str_row_def is_na_def)

lemma first_error_insert:
  "first_error (xs @ str_row r # ys) = first_error (xs @ ys)"
  by (simp add: first_error_def str_row_def is_str_def)

lemma first_error_str_rows: "first_error (map str_row t @ df) = first_error df"
proof (induction t)
  case Nil
  show ?case by simp
next
  case (Cons a t)
  have "first_error (map str_row (a # t) @ df) = first_error ([] @ str_row a # (map str_row t @ df))"
    by simp
  also have "\<dots> = first_error ([] @ (map str_row t @ df))"
    by (rule first_error_insert)
  finally show ?case
    using Cons by simp
qed

lemma number_of_empty: "number_of [] = None"
  by (simp add: number_of_def)

subsection \<open>The row filters\<close>

lemma range_filters_filter: "range_filters df = filter in_range df"
  by (auto simp: range_filters_def Let_def in_range_def intro: filter_cong)

lemma range_filters_idem: "range_filters (range_filters df) = range_filters df"
  by (simp add: range_filters_filter)

lemma range_filters_drop:
  "\<not> in_range r \<Longrightarrow> range_filters (xs @ r # ys) = range_filters (xs @ ys)"
  by (simp add: range_filters_filter)

lemma less_num_Some: "less_num (Some a) x = (\<exists>v. x = Some v \<and> a < v)"
  by (cases x) auto

lemma less_num_Some2: "less_num x (Some a) = (\<exists>v. x = Some v \<and> v < a)"
  by (cases x) auto

lemma le_num_iff: "le_num x c = (\<exists>v w. x = Some v \<and> c = Some w \<and> v \<le> w)"
  by (cases x; cases c) auto

lemma in_range_iff:
  "in_range r =
     (\<exists>b ba t p. bed r = Some b \<and> 1 < b \<and> bath r = Some ba \<and> 1 < ba \<and> ba < 8 \<and>
        toilet r = Some t \<and> t < 8 \<and> pkn_space r = Some p \<and> 2 < p \<and> p < 11)"
  by (auto simp: in_range_def less_num_Some less_num_Some2)

lemma price_filter_filter:
  "price_filter df = filter (\<lambda>r. le_num (price r) (percentile (map price df) 96)) df"
  by (simp add: price_filter_def)

lemma range_filters_price_filter:
  "range_filters (price_filter (range_filters df)) = price_filter (range_filters df)"
  by (auto simp: range_filters_filter price_filter_filter intro: filter_cong)

lemma filter_rows_twice: "filter_rows (filter_rows df) = price_filter (filter_rows df)"
  by (simp add: filter_rows_def range_filters_price_filter)

lemma filter_rows_in_range: "r \<in> set (filter_rows df) \<Longrightarrow> in_range r"
  by (simp add: filter_rows_def price_filter_filter range_filters_filter)

lemma filter_rows_price:
  "r \<in> set (filter_rows df) \<Longrightarrow>
   \<exists>p c. price r = Some p \<and> percentile (map price (range_filters df)) 96 = Some c \<and> p \<le> c"
  by (auto simp: filter_rows_def price_filter_filter le_num_iff)

lemma fill_pkn_space_id: "None \<notin> set (map pkn_space df) \<Longrightarrow> fill_pkn_space df = df"
proof -
  assume "None \<notin> set (map pkn_space df)"
  then have "r\<lparr>pkn_space := (if pkn_space r = None then m else pkn_space r)\<rparr> = r"
    if "r \<in> set df" for r m
    using that by force
  then show ?thesis
    unfolding fill_pkn_space_def Let_def by (rule map_idI)
qed

lemma filter_rows_no_nan: "None \<notin> set (map pkn_space (filter_rows df))"
  using filter_rows_in_range by (fastforce simp: in_range_iff)

lemma fill_filter_rows: "fill_pkn_space (filter_rows df) = filter_rows df"
  by (rule fill_pkn_space_id) (rule filter_rows_no_nan)

lemma select_locations_subset: "set (select_locations df) \<subseteq> set df"
  by (auto simp: select_locations_def)

subsection \<open>The most frequent locations\<close>

lemma crosstab_keys: "map fst (crosstab col) = sort (remdups col)"
  by (simp add: crosstab_def comp_def)

lemma crosstab_counts: "p \<in> set (crosstab col) \<Longrightarrow> snd p = count_list col (fst p)"
  by (auto simp: crosstab_def)

lemma sorted_counts_keys:
  "distinct (map fst (sort_values_descending (crosstab col))) \<and>
   set (map fst (sort_values_descending (crosstab col))) = set col \<and>
   length (sort_values_descending (crosstab col)) = card (set col)"
proof -
  let ?t = "crosstab col"
  have d: "distinct (map fst ?t)"
    by (simp add: crosstab_keys)
  then have "distinct ?t" "inj_on fst (set ?t)"
    by (simp_all add: distinct_map)
  then have "distinct (map fst (sort_values_descending ?t))"
    by (simp add: distinct_map sort_values_descending_def)
  moreover have "set (map fst (sort_values_descending ?t)) = set col"
  proof -
    have "set (map fst (sort_values_descending ?t)) = set (map fst ?t)"
      by (simp add: sort_values_descending_def)
    then show ?thesis
      by (simp add: crosstab_keys)
  qed
  moreover have "length (sort_values_descending ?t) = card (set col)"
  proof -
    have "length (sort_values_descending ?t) = length (map fst ?t)"
      by (simp add: sort_values_descending_def)
    also have "\<dots> = length (remdups col)"
      by (simp add: crosstab_keys)
    finally show ?thesis
      by (simp add: length_remdups_card_conv)
  qed
  ultimately show ?thesis
    by simp
qed

lemma sorted_take_drop:
  assumes "sorted (map f ys)" and "a \<in> set (take n ys)" and "b \<in> set (drop n ys)"
  shows "f a \<le> f b"
proof -
  have "sorted (map f (take n ys) @ map f (drop n ys))"
    using assms(1) by (simp flip: map_append)
  then show ?thesis
    using assms(2,3) by (auto simp: sorted_append)
qed

lemma locations_top:
  assumes "l \<in> set (locations df)" and "l' \<in> set (map address df)"
    and "l' \<notin> set (locations df)"
  shows "count_list (map address df) l' \<le> count_list (map address df) l"
proof -
  let ?col = "map address df"
  let ?ys = "sort_values_descending (crosstab ?col)"
  have loc: "locations df = map fst (take 15 ?ys)"
    by (simp add: locations_def)
  obtain a where a: "a \<in> set (take 15 ?ys)" "fst a = l"
    using assms(1) unfolding loc by auto
  have "l' \<in> set (map fst ?ys)"
    using assms(2) sorted_counts_keys [of ?col] by simp
  then obtain b where b: "b \<in> set ?ys" "fst b = l'"
    by auto
  have "b \<notin> set (take 15 ?ys)"
    using assms(3) b(2) unfolding loc by auto
  then have bd: "b \<in> set (drop 15 ?ys)"
    using b(1) by (metis Un_iff append_take_drop_id set_append)
  have "sorted (map (\<lambda>p. - int (snd p)) ?ys)"
    by (simp add: sort_values_descending_def)
  then have "- int (snd a) \<le> - int (snd b)"
    using a(1) bd by (rule sorted_take_drop)
  moreover have "snd a = count_list ?col l"
    using a crosstab_counts [of a ?col] in_set_takeD [OF a(1)]
    by (simp add: sort_values_descending_def)
  moreover have "snd b = count_list ?col l'"
    using b crosstab_counts [of b ?col] by (simp add: sort_values_descending_def)
  ultimately show ?thesis
    by simp
qed

lemma locations_shape:
  "distinct (locations df) \<and> length (locations df) = min 15 (card (address ` set df)) \<and>
   set (locations df) \<subseteq> address ` set df"
proof -
  let ?col = "map address df"
  let ?ys = "sort_values_descending (crosstab ?col)"
  have loc: "locations df = take 15 (map fst ?ys)"
    by (simp add: locations_def take_map)
  have "distinct (locations df)"
    unfolding loc using sorted_counts_keys [of ?col] by (simp add: distinct_take)
  moreover have "length (locations df) = min 15 (card (address ` set df))"
    unfolding loc using sorted_counts_keys [of ?col] by (simp add: min.commute)
  moreover have "set (locations df) \<subseteq> address ` set df"
  proof -
    have "set (locations df) \<subseteq> set (map fst ?ys)"
      unfolding loc by (rule set_take_subset)
    then show ?thesis
      using sorted_counts_keys [of ?col] by simp
  qed
  ultimately show ?thesis
    by simp
qed

subsection \<open>The encoder\<close>


lemma transform_seen:
  "l \<in> set classes \<Longrightarrow> transform classes [l] = Inr [length (takeWhile (\<lambda>c. c \<noteq> l) classes)]"
  by (simp add: transform_def)

lemma predict_seen_location:
  "form_location frm \<in> set (le_location est) \<Longrightarrow>
   predict est frm =
     and_then
       (reg est
          [take (max 1 (foldr max (map length [form_location frm, form_bed frm, form_bath frm,
                                               form_toilet frm, form_pkn_space frm]) 0))
             (str_of_nat (length (takeWhile (\<lambda>c. c \<noteq> form_location frm) (le_location est)))),
           form_bed frm, form_bath frm, form_toilet frm, form_pkn_space frm])
       (\<lambda>p. Inr (round_half_even (act_price p)))"
  by (simp add: predict_def Let_def transform_seen)

section \<open>The pipeline on the examples\<close>

lemma example_listings_cleaned:
  "map clean_strings example_listings =
     [\<lparr>title = ''Detached Duplex'', address = ''Lekki'', bed = ''3'', bath = ''3'',
       toilet = ''4'', pkn_space = ''3'', price = ''35000000''\<rparr>,
      \<lparr>title = ''Terraced House'', address = ''Ikoyi'', bed = ''4'', bath = ''4'',
       toilet = ''5'', pkn_space = ''4'', price = ''90000000''\<rparr>,
      \<lparr>title = ''Bungalow'', address = ''Ajah'', bed = ''1'', bath = ''1'',
       toilet = ''1'', pkn_space = ''1'', price = ''9000000''\<rparr>]"
  by code_simp

lemma example_listings_kept:
  "clean_data (map str_row example_listings) = Inr [example_cleaned]"
  by code_simp

lemma example_no_price_raises:
  "clean_data (map str_row (example_listings @ [example_no_price])) = Inl ValueError"
  by code_simp

lemma example_numbers_raise:
  "clean_data (map str_row example_listings @ [example_numbers]) = Inl TypeError"
proof -
  have "dropna [example_numbers] = [example_numbers]"
    by (simp add: dropna_def is_na_def example_numbers_def)
  moreover have "first_error [example_numbers] = Some TypeError"
    by (simp add: first_error_def is_str_def example_numbers_def)
  ultimately show ?thesis
    by (simp add: clean_data_closed dropna_append dropna_str_rows first_error_str_rows)
qed

lemma example_prices_once:
  "filter_rows example_prices =
     [listing_at ''Lekki'' 10000000, listing_at ''Lekki'' 20000000]"
  by code_simp

lemma example_prices_twice:
  "filter_rows [listing_at ''Lekki'' 10000000, listing_at ''Lekki'' 20000000] =
     [listing_at ''Lekki'' 10000000]"
  by code_simp

lemma example_locations_top:
  "locations example_locations =
     [''Yaba'', ''Ajah'', ''Apapa'', ''Badagry'', ''Epe'', ''Festac'', ''Gbagada'', ''Ibeju'',
      ''Ikeja'', ''Ikorodu'', ''Ikoyi'', ''Lekki'', ''Magodo'', ''Ojodu'', ''Surulere'']"
  by code_simp

lemma example_locations_selected:
  "select_locations example_locations =
     map (\<lambda>l. listing_at l 10000000)
       [''Yaba'', ''Ajah'', ''Apapa'', ''Badagry'', ''Epe'', ''Festac'', ''Gbagada'', ''Ibeju'',
        ''Ikeja'', ''Ikorodu'', ''Ikoyi'', ''Lekki'', ''Magodo'', ''Ojodu'', ''Surulere'',
        ''Yaba'']"
  by code_simp

lemma example_missing_parking:
  "filter_rows [listing_at ''Lekki'' 10000000,
                (listing_at ''Ikoyi'' 10000000)\<lparr>pkn_space := None\<rparr>] =
     [listing_at ''Lekki'' 10000000]"
  by code_simp

lemma example_estimate:
  "predict example_estimator (example_form ''Lekki'') = Inr 35000002"
proof -
  have "transform [''Ikoyi'', ''Lekki''] [''Lekki''] = Inr [1]"
    by (simp add: transform_def)
  then show ?thesis
    by (simp add: predict_def Let_def example_estimator_def example_form_def act_price_def
        round_half_even_def)
qed

text \<open>
  A value of \<open>bed\<close>, \<open>bath\<close>, \<open>toilet\<close> or \<open>pkn_space\<close> without a digit is converted to
  NaN, and only its row is lost: the pipeline gives what it gives on the table without that
  row.
\<close>

lemma digit_free_field_drops_row:
  assumes "clean_text (bed r) = [] \<or> clean_text (bath r) = [] \<or>
           clean_text (toilet r) = [] \<or> clean_text (pkn_space r) = []"
  shows "clean_data (xs @ str_row r # ys) = clean_data (xs @ ys)"
proof -
  let ?c = "\<lambda>r. convert_row (clean_row r)"
  have "\<not> in_range (?c (str_row r))"
    using assms
    by (auto simp: in_range_def clean_row_str_row clean_strings_def convert_row_def number_of_empty)
  then have f: "filter_rows (map ?c (dropna xs @ str_row r # dropna ys)) =
                filter_rows (map ?c (dropna xs @ dropna ys))"
    by (simp add: filter_rows_def range_filters_drop)
  show ?thesis
    unfolding clean_data_closed dropna_append dropna_str_row first_error_insert f
    by (rule refl)
qed

lemma digit_free_field_drops_row_example:
  "clean_text (bed example_no_bed) = [] \<and>
   clean_data (map str_row example_listings @ str_row example_no_bed # []) =
     Inr [example_cleaned]"
proof -
  have h: "clean_text (bed example_no_bed) = []"
    by (simp add: example_no_bed_def clean_text_def is_digit_def)
  then have "clean_text (bed example_no_bed) = [] \<or> clean_text (bath example_no_bed) = [] \<or>
             clean_text (toilet example_no_bed) = [] \<or>
             clean_text (pkn_space example_no_bed) = []"
    by simp
  from digit_free_field_drops_row [OF this, of "map str_row example_listings" "[]"]
  have "clean_data (map str_row example_listings @ str_row example_no_bed # []) =
        Inr [example_cleaned]"
    by (simp add: example_listings_kept)
  with h show ?thesis
    by simp
qed


section \<open>The claims\<close>

text \<open>
  C1: every record of the cleaned dataset satisfies \<open>bed > 1\<close>, \<open>1 < bath < 8\<close>,
  \<open>toilet < 8\<close>, \<open>2 < pkn_space < 11\<close> and \<open>price \<le> cut_off\<close>, where \<open>cut_off\<close> is the
  96th percentile of the prices of the rows that passed the range filters, computed once.
  Here \<open>out\<close> is the table after line 132 and \<open>df\<close> the table after \<open>pd.to_numeric\<close>.
\<close>

theorem clean_data_invariant:
  assumes "clean_data data = Inr out" and "r \<in> set out"
  shows "\<exists>df. and_then (clean_columns (dropna data)) convert_columns = Inr df \<and>
           (\<exists>b ba t p pr c.
              bed r = Some b \<and> 1 < b \<and>
              bath r = Some ba \<and> 1 < ba \<and> ba < 8 \<and>
              toilet r = Some t \<and> t < 8 \<and>
              pkn_space r = Some p \<and> 2 < p \<and> p < 11 \<and>
              price r = Some pr \<and>
              percentile (map price (range_filters df)) 96 = Some c \<and> pr \<le> c)"
proof -
  obtain cleaned df where cleaned: "clean_columns (dropna data) = Inr cleaned"
    and df: "convert_columns cleaned = Inr df"
    and out: "out = select_locations (fill_pkn_space (filter_rows df))"
    using assms(1) unfolding clean_data_def keep_top_locations_def
    by (cases "clean_columns (dropna data)";
        cases "convert_columns (projr (clean_columns (dropna data)))")
      (auto split: if_splits)
  have r: "r \<in> set (filter_rows df)"
    using assms(2) select_locations_subset unfolding out fill_filter_rows by blast
  have 1: "and_then (clean_columns (dropna data)) convert_columns = Inr df"
    by (simp add: cleaned df)
  show ?thesis
    using 1 filter_rows_in_range [OF r] filter_rows_price [OF r]
    unfolding in_range_iff by blast
qed

theorem clean_data_invariant_witness:
  "clean_data (map str_row example_listings) = Inr [example_cleaned] \<and>
   (\<exists>df. and_then (clean_columns (dropna (map str_row example_listings))) convert_columns =
           Inr df \<and>
      (\<exists>b ba t p pr c.
         bed example_cleaned = Some b \<and> 1 < b \<and>
         bath example_cleaned = Some ba \<and> 1 < ba \<and> ba < 8 \<and>
         toilet example_cleaned = Some t \<and> t < 8 \<and>
         pkn_space example_cleaned = Some p \<and> 2 < p \<and> p < 11 \<and>
         price example_cleaned = Some pr \<and>
         percentile (map price (range_filters df)) 96 = Some c \<and> pr \<le> c))"
proof -
  have e: "clean_data (map str_row example_listings) = Inr [example_cleaned]"
    by (rule example_listings_kept)
  have m: "example_cleaned \<in> set [example_cleaned]"
    by simp
  show ?thesis
    by (rule conjI [OF e clean_data_invariant [OF e m]])
qed

text \<open>
  C2: the rows kept by the location step are exactly the rows whose location is one of
  \<open>locations df\<close>, the first 15 keys of the table of counts sorted downwards; every other
  row is removed. These keys are distinct locations of the table, 15 of them or all when
  there are fewer, and none of the locations left out occurs more often than one of them.
\<close>

theorem select_locations_top15:
  "set (select_locations df) = {r \<in> set df. address r \<in> set (locations df)} \<and>
   distinct (locations df) \<and>
   length (locations df) = min 15 (card (address ` set df)) \<and>
   set (locations df) \<subseteq> address ` set df \<and>
   (\<forall>l\<in>set (locations df). \<forall>l'\<in>address ` set df - set (locations df).
      count_list (map address df) l' \<le> count_list (map address df) l)"
proof -
  have "set (select_locations df) = {r \<in> set df. address r \<in> set (locations df)}"
    by (auto simp: select_locations_def)
  moreover have "\<forall>l\<in>set (locations df). \<forall>l'\<in>address ` set df - set (locations df).
      count_list (map address df) l' \<le> count_list (map address df) l"
    using locations_top [of _ df] by auto
  ultimately show ?thesis
    using locations_shape [of df] by simp
qed

theorem select_locations_top15_witness:
  "locations example_locations =
     [''Yaba'', ''Ajah'', ''Apapa'', ''Badagry'', ''Epe'', ''Festac'', ''Gbagada'', ''Ibeju'',
      ''Ikeja'', ''Ikorodu'', ''Ikoyi'', ''Lekki'', ''Magodo'', ''Ojodu'', ''Surulere''] \<and>
   listing_at ''Victoria Island'' 10000000 \<in> set example_locations \<and>
   listing_at ''Victoria Island'' 10000000 \<notin> set (select_locations example_locations) \<and>
   listing_at ''Yaba'' 10000000 \<in> set (select_locations example_locations)"
proof -
  have s: "set (select_locations example_locations) =
           {r \<in> set example_locations. address r \<in> set (locations example_locations)}"
    using select_locations_top15 [of example_locations] by (rule conjunct1)
  have v: "listing_at ''Victoria Island'' 10000000 \<in> set example_locations"
    and y: "listing_at ''Yaba'' 10000000 \<in> set example_locations"
    by (simp_all add: example_locations_def)
  show ?thesis
    unfolding s using v y
    by (simp add: example_locations_top) (simp add: listing_at_def)
qed

text \<open>
  C3: for every address that splits on commas into at least two segments, \<open>get_address\<close>
  returns exactly the second-to-last segment with leading and trailing whitespace removed;
  for every address with fewer than two segments it returns the empty string.
\<close>

theorem get_address_city:
  "(2 \<le> length (str_split CHR '','' addr) \<longrightarrow>
      get_address addr =
        str_strip (str_split CHR '','' addr ! (length (str_split CHR '','' addr) - 2))) \<and>
   (length (str_split CHR '','' addr) < 2 \<longrightarrow> get_address addr = [])"
  by (simp add: get_address_def py_slice_second_last py_slice_short)

theorem get_address_city_witness:
  "2 \<le> length (str_split CHR '','' ''Lekki Phase 1,  Lekki , Lagos'') \<and>
   get_address ''Lekki Phase 1,  Lekki , Lagos'' = ''Lekki'' \<and>
   length (str_split CHR '','' ''Lagos'') < 2 \<and>
   get_address ''Lagos'' = []"
proof -
  have s1: "str_split CHR '','' ''Lekki Phase 1,  Lekki , Lagos'' =
              [''Lekki Phase 1'', ''  Lekki '', '' Lagos'']"
    by (simp add: str_split_def)
  have s2: "str_split CHR '','' ''Lagos'' = [''Lagos'']"
    by (simp add: str_split_def)
  have t: "str_strip ''  Lekki '' = ''Lekki''"
    by (simp add: str_strip_def is_space_def)
  show ?thesis
    using get_address_city [of "''Lekki Phase 1,  Lekki , Lagos''"]
      get_address_city [of "''Lagos''"]
    by (simp add: s1 s2 t)
qed

text \<open>
  C4: the inversion of the predictor applied to the logarithmic price of the trainer. The
  claim is that it gives back the price \<open>p\<close>; line 35 adds 1 where the inverse of
  \<open>ln (p + 1)\<close> subtracts it, so that the result is \<open>p + 2\<close>.
\<close>

theorem act_price_log_price: "0 < p \<Longrightarrow> act_price (log_price p) = p + 2"
  by (simp add: act_price_def log_price_def)

theorem act_price_log_price_witness:
  "(0 :: real) < 35000000 \<and> act_price (log_price 35000000) = 35000002"
  using act_price_log_price [of 35000000] by simp



text \<open>
  C6, as stated, fails: the cleaning loop has no handler, so a cleaner that raises ends the
  whole run. A row whose counts were read as numbers does so.
\<close>

theorem cleaner_failure_aborts:
  "clean_data (map str_row example_listings @ [example_numbers]) = Inl TypeError"
  by (rule example_numbers_raise)

text \<open>
  C6, amended: on a table whose fields are all strings no cleaner call fails. No row is
  dropped and every field is replaced by its cleaned string, which is empty when nothing
  could be extracted. When a field of a row is not a string, the cleaning stage raises and
  returns no table.
\<close>

theorem clean_columns_strings:
  "dropna (map str_row t) = map str_row t \<and>
   clean_columns (map str_row t) = Inr (map clean_strings t) \<and>
   (r \<in> set df \<and> \<not> strings_only r \<longrightarrow> (\<exists>e. clean_columns df = Inl e))"
proof -
  have "first_error (map str_row t) = None"
    by (simp add: first_error_None list_all_iff strings_only_str_row)
  then have "clean_columns (map str_row t) = Inr (map clean_strings t)"
    by (simp add: clean_columns_closed clean_row_str_row comp_def)
  moreover have "\<exists>e. clean_columns df = Inl e" if "r \<in> set df" "\<not> strings_only r"
  proof -
    have "first_error df \<noteq> None"
      using that by (auto simp: first_error_None list_all_iff)
    then show ?thesis
      by (auto simp: clean_columns_closed)
  qed
  ultimately show ?thesis
    by (simp add: dropna_str_rows)
qed

theorem clean_columns_strings_witness:
  "clean_columns (map str_row example_listings) =
     Inr [\<lparr>title = ''Detached Duplex'', address = ''Lekki'', bed = ''3'', bath = ''3'',
           toilet = ''4'', pkn_space = ''3'', price = ''35000000''\<rparr>,
          \<lparr>title = ''Terraced House'', address = ''Ikoyi'', bed = ''4'', bath = ''4'',
           toilet = ''5'', pkn_space = ''4'', price = ''90000000''\<rparr>,
          \<lparr>title = ''Bungalow'', address = ''Ajah'', bed = ''1'', bath = ''1'',
           toilet = ''1'', pkn_space = ''1'', price = ''9000000''\<rparr>] \<and>
   example_numbers \<in> set [example_numbers] \<and> \<not> strings_only example_numbers \<and>
   (\<exists>e. clean_columns [example_numbers] = Inl e)"
proof -
  have n: "example_numbers \<in> set [example_numbers] \<and> \<not> strings_only example_numbers"
    by (simp add: strings_only_def is_str_def example_numbers_def)
  show ?thesis
    using n clean_columns_strings [of example_listings example_numbers "[example_numbers]"]
    by (simp add: example_listings_cleaned)
qed

text \<open>
  C7: a value that cannot be converted should cost its own row only. For \<open>bed\<close>, \<open>bath\<close>,
  \<open>toilet\<close> and \<open>pkn_space\<close> it does (\<open>digit_free_field_drops_row\<close>). For the price it
  does not: a price without digits becomes NaN without an exception, the percentile of
  prices with a NaN is NaN, no row passes the price filter of line 116, and line 127 raises
  on the empty table. The three listings alone give a dataset; with the listing without a
  price there is none.
\<close>

theorem missing_price_aborts:
  "clean_data (map str_row (example_listings @ [example_no_price])) = Inl ValueError \<and>
   clean_data (map str_row example_listings) = Inr [example_cleaned]"
  by (rule conjI [OF example_no_price_raises example_listings_kept])

text \<open>
  C8, as stated, fails: the second application computes the percentile again, over the rows
  that the first one kept, and removes the dearest of them.
\<close>

theorem filter_rows_not_idempotent:
  "filter_rows (filter_rows example_prices) \<noteq> filter_rows example_prices"
  by (simp add: example_prices_once example_prices_twice)

text \<open>
  C8, amended: the range filters are idempotent. A second application of the whole chain
  removes no row by range and applies the price filter, with a new percentile, to the rows
  that the first application kept; what it keeps is among them.
\<close>

theorem filter_rows_again:
  "range_filters (range_filters df) = range_filters df \<and>
   filter_rows (filter_rows df) = price_filter (filter_rows df) \<and>
   set (filter_rows (filter_rows df)) \<subseteq> set (filter_rows df)"
proof -
  have "set (price_filter (filter_rows df)) \<subseteq> set (filter_rows df)"
    by (auto simp: price_filter_filter)
  then show ?thesis
    by (simp add: range_filters_idem filter_rows_twice)
qed

theorem filter_rows_again_witness:
  "filter_rows (filter_rows example_prices) = [listing_at ''Lekki'' 10000000] \<and>
   price_filter (filter_rows example_prices) = [listing_at ''Lekki'' 10000000]"
proof -
  have "filter_rows (filter_rows example_prices) = price_filter (filter_rows example_prices)"
    using filter_rows_again [of example_prices] by simp
  then show ?thesis
    by (simp add: example_prices_once example_prices_twice)
qed

text \<open>
  C9, as stated, fails: on \<open>mans\<close>, U+0130, \<open>on\<close> the extractor returns \<open>Mansi\<close>, U+0307,
  \<open>on\<close>, and on that text it returns the empty text.
\<close>

theorem extract_details_u_not_idempotent:
  "extract_details_u excerpt_tables
     (extract_details_u excerpt_tables [109, 97, 110, 115, 304, 111, 110]) \<noteq>
   extract_details_u excerpt_tables [109, 97, 110, 115, 304, 111, 110]"
proof -
  have "extract_details_u excerpt_tables [109, 97, 110, 115, 304, 111, 110] =
          [77, 97, 110, 115, 105, 775, 111, 110] \<and>
        extract_details_u excerpt_tables [77, 97, 110, 115, 105, 775, 111, 110] = []"
    by (rule dotted_I_any_tables) (simp_all add: ascii_excerpt_tables, simp_all add: excerpt_tables_def)
  then show ?thesis
    by simp
qed

text \<open>
  C9, amended: for every ASCII text \<open>t\<close> (every code point below 128), and whatever the
  case tables are outside ASCII, the extractor applied to its own output returns that
  output again.
\<close>

theorem extract_details_u_idempotent:
  assumes "ascii_tables u" and "\<forall>c\<in>set t. c < 128"
  shows "extract_details_u u (extract_details_u u t) = extract_details_u u t"
proof -
  let ?t = "map char_of t"
  have t: "codes ?t = t" and a: "ascii ?t"
    using codes_char_of [OF assms(2)] by simp_all
  have 1: "extract_details_u u t = codes (extract_details ?t)"
    using extract_details_u_ascii [OF assms(1) a] t by simp
  have "extract_details_u u (codes (extract_details ?t)) =
        codes (extract_details (extract_details ?t))"
    using assms(1) ascii_extract_details by (rule extract_details_u_ascii)
  then show ?thesis
    unfolding 1 by (simp add: extract_details_idempotent)
qed

theorem extract_details_u_idempotent_witness:
  "extract_details_u excerpt_tables (codes ''4 bedroom SEMI-detached duplex'') =
     codes ''Semi-Detached Duplex'' \<and>
   extract_details_u excerpt_tables (codes ''Semi-Detached Duplex'') =
     codes ''Semi-Detached Duplex''"
proof -
  let ?t = "''4 bedroom SEMI-detached duplex''"
  have a: "ascii ?t"
    by simp
  have v: "extract_details_u excerpt_tables (codes ?t) = codes ''Semi-Detached Duplex''"
    using extract_details_u_ascii [OF ascii_excerpt_tables a]
    by (simp only: extract_details_example)
  have c: "\<forall>c\<in>set (codes ?t). c < 128"
    by (simp add: codes_def)
  have "extract_details_u excerpt_tables (extract_details_u excerpt_tables (codes ?t)) =
        extract_details_u excerpt_tables (codes ?t)"
    using ascii_excerpt_tables c by (rule extract_details_u_idempotent)
  then have "extract_details_u excerpt_tables (codes ''Semi-Detached Duplex'') =
             codes ''Semi-Detached Duplex''"
    unfolding v .
  with v show ?thesis
    by simp
qed

text \<open>
  C10: when the median is filled in, no value of \<open>pkn_space\<close> is missing, and the step
  changes nothing. A value can be missing after the conversion (a field without digits is
  NaN); the range filter on \<open>pkn_space\<close> has removed every such row by then.
\<close>

theorem fill_pkn_space_no_op:
  "None \<notin> set (map pkn_space (filter_rows df)) \<and>
   fill_pkn_space (filter_rows df) = filter_rows df"
  by (rule conjI [OF filter_rows_no_nan fill_filter_rows])

theorem fill_pkn_space_no_op_witness:
  "fill_pkn_space
     (filter_rows [listing_at ''Lekki'' 10000000,
                   (listing_at ''Ikoyi'' 10000000)\<lparr>pkn_space := None\<rparr>]) =
   [listing_at ''Lekki'' 10000000]"
proof -
  have "fill_pkn_space
     (filter_rows [listing_at ''Lekki'' 10000000,
                   (listing_at ''Ikoyi'' 10000000)\<lparr>pkn_space := None\<rparr>]) =
        filter_rows [listing_at ''Lekki'' 10000000,
                     (listing_at ''Ikoyi'' 10000000)\<lparr>pkn_space := None\<rparr>]"
    using fill_pkn_space_no_op by (rule conjunct2)
  then show ?thesis
    by (simp only: example_missing_parking)
qed

end
